theory Spec2Isabelle
  imports Complex_Main "HOL-Library.Sublist"
begin

section \<open>Data model (src/types.ts)\<close>

text \<open>
  JavaScript numbers that the code only ever uses as geographic coordinates or scroll
  metrics are modelled as rationals; a number that the code obtains by a division or by
  \<^verbatim>\<open>Math.round\<close> can also be \<^verbatim>\<open>NaN\<close> or an infinity, and has the type
  \<open>jsnum\<close> below. Rounding of doubles and signed zeros are outside the model.
  Strings are \<open>string\<close>. What \<^verbatim>\<open>String.prototype.toLowerCase\<close> returns for a string
  is not fixed by the model: the function is the parameter \<open>toLowerCase\<close> of every
  definition that calls it.
  A field that TypeScript declares optional (\<^verbatim>\<open>?\<close>) or nullable is an \<open>option\<close>.
\<close>

datatype CutPackCategory = Moody | Bright | Epic | Artsy

record CutPack =
  cp_id :: string
  category :: CutPackCategory
  cp_name :: string
  promise :: string
  cp_description :: string

record StoryArc =
  arc_id :: string
  arc_name :: string
  "structure" :: string
  bestFor :: string

datatype PaceLevel = SlowBurn | Balanced | Hypercut

datatype FocusTarget = People | Places | Food | Motion | Details | Vistas

datatype EndingStyle = MicDrop | SoftLanding | Cliffhanger

record LocationPoint =
  name :: string
  lat :: rat
  lng :: rat
  description :: "string option"

datatype MediaSource = upload | cloud | ai

record MediaItem =
  item_id :: string
  url :: string
  mimeType :: string
  item_description :: "string option"
  item_location :: "LocationPoint option"
  timestamp :: string
  base64 :: "string option"
  source :: "MediaSource option"

type_synonym ArrayBuffer = "nat list"

type_synonym AudioBuffer = "nat list"

record StoryBeat =
  index :: int
  narration :: string
  associatedMediaId :: "string option"
  location :: "LocationPoint option"
  audioBuffer :: "AudioBuffer option"

record RecallStory =
  title :: string
  beats :: "StoryBeat list"

datatype AppState =
  IMPORTING | ROUTE_CONFIRMED | DESIGNING | ANALYZING | PREMIERE | PLAYBACK
  | GENERATING_ASSET

datatype error = TypeError | CollaboratorError string

section \<open>JavaScript primitives used by the code\<close>

text \<open>\<^verbatim>\<open>s.includes(t)\<close>: \<open>t\<close> occurs in \<open>s\<close> as a contiguous run of characters.\<close>

fun jsIncludes :: "string \<Rightarrow> string \<Rightarrow> bool" where
  "jsIncludes [] t = (t = [])"
| "jsIncludes (c # s) t = (prefix t (c # s) \<or> jsIncludes s t)"

text \<open>
  The remainder operator \<^verbatim>\<open>%\<close> on integers, for a positive right operand: the result
  has the sign of the left operand.
\<close>

definition jsRem :: "int \<Rightarrow> int \<Rightarrow> int" where
  "jsRem a n = (if a < 0 then - ((- a) mod n) else a mod n)"

text \<open>
  \<^verbatim>\<open>xs[k]\<close> for an integer \<open>k\<close>: \<^verbatim>\<open>undefined\<close> outside of the array, also for a
  negative \<open>k\<close>.
\<close>

definition arrayGet :: "'a list \<Rightarrow> int \<Rightarrow> 'a option" where
  "arrayGet xs k = (if 0 \<le> k \<and> k < int (length xs) then Some (xs ! nat k) else None)"

section \<open>Story assembly (src/services/geminiService.ts)\<close>

text \<open>
  The parsed response of the story collaborator, \<^verbatim>\<open>rawJson\<close>. The response schema
  requires \<^verbatim>\<open>index\<close>, \<^verbatim>\<open>text\<close> and \<^verbatim>\<open>locationName\<close> of every beat and declares
  \<^verbatim>\<open>index\<close> an integer; it requires neither \<^verbatim>\<open>title\<close> nor \<^verbatim>\<open>beats\<close> of the
  response, nor \<^verbatim>\<open>mediaId\<close> of a beat.
\<close>

record RawBeat =
  b_index :: int
  b_text :: string
  b_locationName :: string
  b_mediaId :: "string option"

record RawJson =
  rawTitle :: "string option"
  rawBeats :: "RawBeat list option"

record Params =
  p_title :: string
  p_cutPack :: CutPack
  p_arc :: StoryArc
  p_pace :: PaceLevel
  p_focus :: "FocusTarget list"
  p_ending :: EndingStyle
  p_media :: "MediaItem list"
  p_itinerary :: "LocationPoint list"

text \<open>
  The location of a raw beat, the expression bound to \<^verbatim>\<open>loc\<close> in both definitions of
  \<^verbatim>\<open>analyzeTripAndGenerateStory\<close>:
  \<^verbatim>\<open>itinerary.find(l => l.name.toLowerCase().includes(b.locationName.toLowerCase()))
     || itinerary[b.index % (itinerary.length || 1)]\<close>.
  A found point is an object, hence truthy, so the right operand is taken exactly when
  \<^verbatim>\<open>find\<close> returns \<^verbatim>\<open>undefined\<close>.
\<close>

definition nameMatches :: "(string \<Rightarrow> string) \<Rightarrow> RawBeat \<Rightarrow> LocationPoint \<Rightarrow> bool" where
  "nameMatches toLowerCase b l = jsIncludes (toLowerCase (name l)) (toLowerCase (b_locationName b))"

definition resolveLocation ::
  "(string \<Rightarrow> string) \<Rightarrow> LocationPoint list \<Rightarrow> RawBeat \<Rightarrow> LocationPoint option" where
  "resolveLocation toLowerCase itinerary b =
     (case List.find (nameMatches toLowerCase b) itinerary of
        Some l \<Rightarrow> Some l
      | None \<Rightarrow>
          arrayGet itinerary
            (jsRem (b_index b) (if length itinerary = 0 then 1 else int (length itinerary))))"

text \<open>The object literal that the callback of \<^verbatim>\<open>map\<close> returns for a raw beat.\<close>

definition toStoryBeat ::
  "(string \<Rightarrow> string) \<Rightarrow> LocationPoint list \<Rightarrow> RawBeat \<Rightarrow> StoryBeat" where
  "toStoryBeat toLowerCase itinerary b =
     \<lparr> index = b_index b, narration = b_text b, associatedMediaId = b_mediaId b,
       location = resolveLocation toLowerCase itinerary b, audioBuffer = None \<rparr>"

text \<open>\<^verbatim>\<open>rawJson.title || title\<close>: an absent or empty title is falsy.\<close>

definition titleOr :: "string option \<Rightarrow> string \<Rightarrow> string" where
  "titleOr t d = (case t of None \<Rightarrow> d | Some s \<Rightarrow> if s = [] then d else s)"

text \<open>
  What the first definition of \<^verbatim>\<open>analyzeTripAndGenerateStory\<close> (lines 110 to 211)
  does with the parsed response: \<^verbatim>\<open>(rawJson.beats || []).map(...)\<close>.
\<close>

definition storyOfResponse1 ::
  "(string \<Rightarrow> string) \<Rightarrow> Params \<Rightarrow> RawJson \<Rightarrow> error + RecallStory" where
  "storyOfResponse1 toLowerCase params rawJson =
     Inr \<lparr> title = titleOr (rawTitle rawJson) (p_title params),
           beats = map (toStoryBeat toLowerCase (p_itinerary params))
                     (case rawBeats rawJson of None \<Rightarrow> [] | Some bs \<Rightarrow> bs) \<rparr>"

text \<open>
  The second definition (lines 338 to 439): \<^verbatim>\<open>rawJson.beats.map(...)\<close>, a
  \<^verbatim>\<open>TypeError\<close> when the response has no \<^verbatim>\<open>beats\<close>.
\<close>

definition storyOfResponse2 ::
  "(string \<Rightarrow> string) \<Rightarrow> Params \<Rightarrow> RawJson \<Rightarrow> error + RecallStory" where
  "storyOfResponse2 toLowerCase params rawJson =
     (case rawBeats rawJson of
        None \<Rightarrow> Inl TypeError
      | Some bs \<Rightarrow>
          Inr \<lparr> title = titleOr (rawTitle rawJson) (p_title params),
                beats = map (toStoryBeat toLowerCase (p_itinerary params)) bs \<rparr>)"

text \<open>
  The two definitions of \<^verbatim>\<open>analyzeTripAndGenerateStory\<close>. The call of the story
  collaborator and \<^verbatim>\<open>JSON.parse\<close> of its answer are the parameter \<open>respond\<close>: the
  error they raise, or the parsed response.
\<close>

definition analyzeTripAndGenerateStory1 ::
  "(string \<Rightarrow> string) \<Rightarrow> (Params \<Rightarrow> error + RawJson) \<Rightarrow> Params
   \<Rightarrow> error + RecallStory" where
  "analyzeTripAndGenerateStory1 toLowerCase respond params =
     (case respond params of
        Inl e \<Rightarrow> Inl e
      | Inr rawJson \<Rightarrow> storyOfResponse1 toLowerCase params rawJson)"

definition analyzeTripAndGenerateStory2 ::
  "(string \<Rightarrow> string) \<Rightarrow> (Params \<Rightarrow> error + RawJson) \<Rightarrow> Params
   \<Rightarrow> error + RecallStory" where
  "analyzeTripAndGenerateStory2 toLowerCase respond params =
     (case respond params of
        Inl e \<Rightarrow> Inl e
      | Inr rawJson \<Rightarrow> storyOfResponse2 toLowerCase params rawJson)"

text \<open>
  The number of beats that the prompt of the first definition asks the collaborator for
  (line 157): \<^verbatim>\<open>Math.max(4, Math.min(media.length, 10))\<close>. The prompt of the second
  definition names no number.
\<close>

definition requestedBeats :: "MediaItem list \<Rightarrow> nat" where
  "requestedBeats ms = max 4 (min (length ms) 10)"

text \<open>
  A part of the prompt that stands for one media item. \<^verbatim>\<open>s.split(',')\<close> cuts a string
  at every comma; \<^verbatim>\<open>m.base64.split(',')[1] || m.base64\<close> is the second piece unless it
  is absent or empty.
\<close>

datatype Part = InlineData string string | TextPart string

fun splitOn :: "char \<Rightarrow> string \<Rightarrow> string list" where
  "splitOn c [] = [[]]"
| "splitOn c (x # xs) =
     (if x = c then [] # splitOn c xs
      else (case splitOn c xs of [] \<Rightarrow> [[x]] | w # ws \<Rightarrow> (x # w) # ws))"

definition payload :: "string \<Rightarrow> string" where
  "payload d =
     (case arrayGet (splitOn CHR '','' d) 1 of
        None \<Rightarrow> d
      | Some piece \<Rightarrow> if piece = [] then d else piece)"

text \<open>\<^verbatim>\<open>${m.source}\<close> in a template literal.\<close>

fun sourceText :: "MediaSource option \<Rightarrow> string" where
  "sourceText None = ''undefined''"
| "sourceText (Some upload) = ''upload''"
| "sourceText (Some cloud) = ''cloud''"
| "sourceText (Some ai) = ''ai''"

text \<open>
  The callback of \<^verbatim>\<open>media.slice(0, 15).map(...)\<close> in the first definition (lines 124
  to 136): an item is sent inline when its \<^verbatim>\<open>base64\<close> is truthy and its MIME type
  starts with \<^verbatim>\<open>image\<close>.
\<close>

definition mediaPart1 :: "MediaItem \<Rightarrow> Part" where
  "mediaPart1 m =
     (case base64 m of
        None \<Rightarrow> TextPart (''[Fragment: '' @ url m @ '' - '' @ sourceText (source m) @ '' source]'')
      | Some d \<Rightarrow>
          if d \<noteq> [] \<and> prefix ''image'' (mimeType m) then InlineData (payload d) (mimeType m)
          else TextPart (''[Fragment: '' @ url m @ '' - '' @ sourceText (source m) @ '' source]''))"

text \<open>
  The callback in the second definition (lines 351 to 361): an item is sent inline when
  its \<^verbatim>\<open>base64\<close> is truthy.
\<close>

definition mediaPart2 :: "MediaItem \<Rightarrow> Part" where
  "mediaPart2 m =
     (case base64 m of
        None \<Rightarrow> TextPart (''[Fragment: '' @ url m @ '']'')
      | Some d \<Rightarrow>
          if d \<noteq> [] then InlineData (payload d) (mimeType m)
          else TextPart (''[Fragment: '' @ url m @ '']''))"

definition mediaParts1 :: "MediaItem list \<Rightarrow> Part list" where
  "mediaParts1 ms = map mediaPart1 (take 15 ms)"

definition mediaParts2 :: "MediaItem list \<Rightarrow> Part list" where
  "mediaParts2 ms = map mediaPart2 (take 15 ms)"

section \<open>The host application (src/App.tsx)\<close>

text \<open>The part of the state of \<^verbatim>\<open>App\<close> that the handlers below read or write.\<close>

record App =
  appState :: AppState
  tripTitle :: string
  media :: "MediaItem list"
  itinerary :: "LocationPoint list"
  story :: "RecallStory option"
  loadingMsg :: string
  isProcessing :: bool
  selectedCutPack :: CutPack
  selectedArc :: StoryArc
  pace :: PaceLevel
  focus :: "FocusTarget list"
  ending :: EndingStyle

text \<open>Decimal rendering of a natural number, as a template literal prints it.\<close>

definition digitChar :: "nat \<Rightarrow> char" where
  "digitChar d = char_of (of_char CHR ''0'' + d)"

function showNat :: "nat \<Rightarrow> string" where
  "showNat n = (if n < 10 then [digitChar n] else showNat (n div 10) @ [digitChar (n mod 10)])"
  by pat_completeness auto
termination
  by (relation "measure (\<lambda>n. n)") auto

declare showNat.simps [simp del]

subsection \<open>\<^verbatim>\<open>handleGenerate\<close> (lines 764 to 802)\<close>

text \<open>
  The collaborators of \<^verbatim>\<open>handleGenerate\<close>: the imported
  \<^verbatim>\<open>analyzeTripAndGenerateStory\<close> (with its own collaborator inside), and the outcomes
  of the \<open>i\<close>-th call of \<^verbatim>\<open>generateBeatAudio(text, voice)\<close> and of
  \<^verbatim>\<open>ctx.decodeAudioData(ab)\<close>, each an error or a value. Creating and closing the
  audio context are taken to succeed.
\<close>

record Collaborators =
  analyze :: "Params \<Rightarrow> error + RecallStory"
  generateBeatAudio :: "nat \<Rightarrow> string \<Rightarrow> string \<Rightarrow> error + ArrayBuffer"
  decodeAudioData :: "nat \<Rightarrow> ArrayBuffer \<Rightarrow> error + AudioBuffer"

text \<open>The voice table of the second copy of \<^verbatim>\<open>App\<close> (lines 784 to 786).\<close>

fun voiceOf :: "CutPackCategory \<Rightarrow> string" where
  "voiceOf Moody = ''Kore''"
| "voiceOf Epic = ''Fenrir''"
| "voiceOf Bright = ''Puck''"
| "voiceOf Artsy = ''Charon''"

definition masteringMsg :: "nat \<Rightarrow> nat \<Rightarrow> string" where
  "masteringMsg i n = ''Mastering Beat '' @ showNat (i + 1) @ ''/'' @ showNat n @ ''...''"

text \<open>
  The \<^verbatim>\<open>for\<close> loop over the beats, from position \<open>i\<close> on. It returns the beats with
  their audio attached or the error that left the loop, the state of the application,
  and the requests made to \<^verbatim>\<open>generateBeatAudio\<close> so far, in order.
\<close>

function masterBeats ::
  "Collaborators \<Rightarrow> string \<Rightarrow> nat \<Rightarrow> StoryBeat list \<Rightarrow> App \<Rightarrow> (string \<times> string) list
   \<Rightarrow> (error + StoryBeat list) \<times> App \<times> (string \<times> string) list" where
  "masterBeats env voice i bs s calls =
     (if i < length bs then
        (let beat = bs ! i; calls' = calls @ [(narration beat, voice)]
         in case generateBeatAudio env i (narration beat) voice of
              Inl e \<Rightarrow> (Inl e, s, calls')
            | Inr ab \<Rightarrow>
                (case decodeAudioData env i ab of
                   Inl e \<Rightarrow> (Inl e, s, calls')
                 | Inr buf \<Rightarrow>
                     masterBeats env voice (Suc i) (bs[i := beat\<lparr>audioBuffer := Some buf\<rparr>])
                       (s\<lparr>loadingMsg := masteringMsg i (length bs)\<rparr>) calls'))
      else (Inr bs, s, calls))"
  by pat_completeness auto
termination
  by (relation "measure (\<lambda>(env, voice, i, bs, s, calls). length bs - i)") auto

declare masterBeats.simps [simp del]

definition paramsOf :: "App \<Rightarrow> Params" where
  "paramsOf s =
     \<lparr> p_title = tripTitle s, p_cutPack = selectedCutPack s, p_arc = selectedArc s,
       p_pace = pace s, p_focus = focus s, p_ending = ending s, p_media = media s,
       p_itinerary = itinerary s \<rparr>"

text \<open>
  \<^verbatim>\<open>handleGenerate\<close>: the state of the application when the handler has finished, and
  the requests it made to \<^verbatim>\<open>generateBeatAudio\<close>.
\<close>

definition handleGenerate :: "Collaborators \<Rightarrow> App \<Rightarrow> App \<times> (string \<times> string) list" where
  "handleGenerate env s =
     (let s1 = s\<lparr>appState := ANALYZING, loadingMsg := ''Activating Thinking Mode...''\<rparr>
      in case analyze env (paramsOf s) of
           Inl e \<Rightarrow> (s1\<lparr>appState := IMPORTING\<rparr>, [])
         | Inr generatedStory \<Rightarrow>
             (let s2 = s1\<lparr>loadingMsg := ''Developing Final Premiere...''\<rparr>;
                  voice = voiceOf (category (selectedCutPack s))
              in case masterBeats env voice 0 (beats generatedStory) s2 [] of
                   (Inl e, s3, calls) \<Rightarrow> (s3\<lparr>appState := IMPORTING\<rparr>, calls)
                 | (Inr bs, s3, calls) \<Rightarrow>
                     (s3\<lparr>story := Some (generatedStory\<lparr>beats := bs\<rparr>),
                         appState := PREMIERE\<rparr>, calls)))"

text \<open>Beat \<open>j\<close> gets its audio: both collaborator calls of the loop body succeed.\<close>

definition beatAudioOk :: "Collaborators \<Rightarrow> string \<Rightarrow> StoryBeat list \<Rightarrow> nat \<Rightarrow> bool" where
  "beatAudioOk env voice bs j =
     (case generateBeatAudio env j (narration (bs ! j)) voice of
        Inl e \<Rightarrow> False
      | Inr ab \<Rightarrow> (case decodeAudioData env j ab of Inl e \<Rightarrow> False | Inr buf \<Rightarrow> True))"

subsection \<open>\<^verbatim>\<open>processFiles\<close> (lines 165 to 188 and 738 to 761)\<close>

text \<open>
  A selected file, with what the browser makes of it: its MIME type, the URL that
  \<^verbatim>\<open>URL.createObjectURL\<close> returns for it, and the \<^verbatim>\<open>result\<close> of its
  \<^verbatim>\<open>FileReader\<close> (\<^verbatim>\<open>null\<close> when reading failed; \<^verbatim>\<open>onloadend\<close> fires in both
  cases).
\<close>

record File =
  file_type :: string
  objectURL :: string
  readerResult :: "string option"

text \<open>The variables that the \<^verbatim>\<open>onloadend\<close> callbacks of one call share.\<close>

record Import =
  files :: "File list"
  newMedia :: "MediaItem list"
  processedCount :: nat

text \<open>
  \<^verbatim>\<open>processFiles(files)\<close> up to its return: the flag is set and one reader is started
  for each file; \<open>startedReaders\<close> are their positions.
\<close>

definition processFiles :: "File list \<Rightarrow> App \<Rightarrow> App \<times> Import" where
  "processFiles fs s =
     (s\<lparr>isProcessing := True\<rparr>, \<lparr> files = fs, newMedia = [], processedCount = 0 \<rparr>)"

definition startedReaders :: "Import \<Rightarrow> nat list" where
  "startedReaders u = [0 ..< length (files u)]"

text \<open>
  The \<^verbatim>\<open>onloadend\<close> callback of the reader of file \<open>idx\<close>, run when \<^verbatim>\<open>Date.now()\<close> is
  \<open>now\<close> and \<^verbatim>\<open>new Date().toISOString()\<close> is \<open>isoNow\<close>. There is such a reader
  only for a position of a file; for any other \<open>idx\<close> nothing happens.
\<close>

definition onloadend :: "nat \<Rightarrow> string \<Rightarrow> nat \<Rightarrow> App \<times> Import \<Rightarrow> App \<times> Import" where
  "onloadend now isoNow idx = (\<lambda>(s, u).
     if idx < length (files u) then
       (let file = files u ! idx;
            item = \<lparr> item_id = ''media-'' @ showNat now @ ''-'' @ showNat idx,
                     url = objectURL file, mimeType = file_type file,
                     item_description = None, item_location = None, timestamp = isoNow,
                     base64 = readerResult file, source = Some upload \<rparr>;
            u' = u\<lparr>newMedia := newMedia u @ [item], processedCount := processedCount u + 1\<rparr>
        in if processedCount u' = length (files u)
           then (s\<lparr>media := media s @ newMedia u', isProcessing := False\<rparr>, u')
           else (s, u'))
     else (s, u))"

text \<open>
  The import once the readers at the positions \<open>order\<close> have finished, in this order,
  the reader of file \<open>idx\<close> at the time \<open>clock idx\<close>.
\<close>

fun finishReaders :: "(nat \<Rightarrow> nat \<times> string) \<Rightarrow> nat list \<Rightarrow> App \<times> Import \<Rightarrow> App \<times> Import" where
  "finishReaders clock [] c = c"
| "finishReaders clock (idx # rest) c =
     finishReaders clock rest (onloadend (fst (clock idx)) (snd (clock idx)) idx c)"

text \<open>
  The state of the application when every reader that \<^verbatim>\<open>processFiles(fs)\<close> started
  has finished.
\<close>

definition importFinished :: "(nat \<Rightarrow> nat \<times> string) \<Rightarrow> File list \<Rightarrow> App \<Rightarrow> App" where
  "importFinished clock fs s =
     fst (finishReaders clock (startedReaders (snd (processFiles fs s))) (processFiles fs s))"

section \<open>The scroll-synchronised player (src/components/ScrollyStory.tsx)\<close>

subsection \<open>Numbers that a division produces\<close>

datatype jsnum = Num rat | NaN | PosInfinity | NegInfinity

text \<open>\<^verbatim>\<open>a / b\<close> for finite \<open>a\<close> and \<open>b\<close>.\<close>

definition jsDiv :: "rat \<Rightarrow> rat \<Rightarrow> jsnum" where
  "jsDiv a b =
     (if b = 0 then (if a = 0 then NaN else if 0 < a then PosInfinity else NegInfinity)
      else Num (a / b))"

text \<open>\<^verbatim>\<open>Math.round\<close>: the nearest integer, a tie going up.\<close>

fun mathRound :: "jsnum \<Rightarrow> jsnum" where
  "mathRound (Num q) = Num (of_int \<lfloor>q + 1 / 2\<rfloor>)"
| "mathRound x = x"

text \<open>\<^verbatim>\<open>a !== b\<close> on numbers: \<^verbatim>\<open>NaN\<close> differs from every number, itself included.\<close>

definition strictNeq :: "jsnum \<Rightarrow> jsnum \<Rightarrow> bool" where
  "strictNeq a b = (a = NaN \<or> b = NaN \<or> a \<noteq> b)"

text \<open>\<^verbatim>\<open>a < n\<close> for the length \<open>n\<close> of an array.\<close>

fun lessThanLength :: "jsnum \<Rightarrow> nat \<Rightarrow> bool" where
  "lessThanLength (Num q) n = (q < of_nat n)"
| "lessThanLength NegInfinity n = True"
| "lessThanLength x n = False"

text \<open>\<^verbatim>\<open>xs[a]\<close>: an element only at an integer position inside of the array.\<close>

fun elementAt :: "'a list \<Rightarrow> jsnum \<Rightarrow> 'a option" where
  "elementAt xs (Num q) =
     (if q = of_int \<lfloor>q\<rfloor> \<and> 0 \<le> q \<and> q < of_nat (length xs) then Some (xs ! nat \<lfloor>q\<rfloor>)
      else None)"
| "elementAt xs x = None"

subsection \<open>State\<close>

text \<open>
  The audio graph: an audio context, and the buffer sources created so far, in the
  order of their creation, each with the flag whether it is sounding.
  \<^verbatim>\<open>currentSourceRef\<close> holds the position of a source.
\<close>

datatype AudioContext = Running | Closed

record BufferSource =
  buffer :: AudioBuffer
  sounding :: bool

record Player =
  muted :: bool
  activeBeatIndex :: jsnum
  scrollProgress :: jsnum
  audioContextRef :: "AudioContext option"
  currentSourceRef :: "nat option"
  sources :: "BufferSource list"

text \<open>The element that \<^verbatim>\<open>scrollContainerRef\<close> points to, as \<^verbatim>\<open>handleScroll\<close> reads it.\<close>

record ScrollMetrics =
  scrollTop :: rat
  scrollHeight :: rat
  clientHeight :: rat

text \<open>The initial values of \<^verbatim>\<open>useState\<close> and \<^verbatim>\<open>useRef\<close> (lines 18 to 23).\<close>

definition initialPlayer :: Player where
  "initialPlayer =
     \<lparr> muted = False, activeBeatIndex = Num 0, scrollProgress = Num 0,
       audioContextRef = None, currentSourceRef = None, sources = [] \<rparr>"

text \<open>The effect that runs once on mount (lines 25 to 31), and its cleanup.\<close>

definition mountEffect :: "Player \<Rightarrow> Player" where
  "mountEffect p = p\<lparr>audioContextRef := Some Running\<rparr>"

definition mount :: Player where
  "mount = mountEffect initialPlayer"

definition unmount :: "Player \<Rightarrow> Player" where
  "unmount p =
     (case audioContextRef p of
        None \<Rightarrow> p
      | Some c \<Rightarrow>
          p\<lparr>audioContextRef := Some Closed,
            sources := map (\<lambda>src. src\<lparr>sounding := False\<rparr>) (sources p)\<rparr>)"

subsection \<open>\<^verbatim>\<open>playBeatAudio\<close> (lines 33 to 45)\<close>

text \<open>\<^verbatim>\<open>source.stop()\<close> of the source at position \<open>k\<close>.\<close>

definition stopSource :: "nat \<Rightarrow> BufferSource list \<Rightarrow> BufferSource list" where
  "stopSource k srcs = (if k < length srcs then srcs[k := (srcs ! k)\<lparr>sounding := False\<rparr>] else srcs)"

text \<open>Lines 36 to 38: the current source, if there is one, is stopped.\<close>

definition stopCurrent :: "Player \<Rightarrow> Player" where
  "stopCurrent p =
     (case currentSourceRef p of
        None \<Rightarrow> p
      | Some k \<Rightarrow> p\<lparr>sources := stopSource k (sources p)\<rparr>)"

text \<open>
  Lines 40 to 44: a new source is created for the buffer, started, and made the current
  one. A source that is started on a closed context makes no sound.
\<close>

definition startSource :: "AudioBuffer \<Rightarrow> Player \<Rightarrow> Player" where
  "startSource buf p =
     p\<lparr>sources := sources p @ [\<lparr> buffer = buf, sounding = (audioContextRef p = Some Running) \<rparr>],
       currentSourceRef := Some (length (sources p))\<rparr>"

text \<open>
  \<^verbatim>\<open>playBeatAudio(beat)\<close>, where \<open>beat\<close> is \<open>None\<close> for \<^verbatim>\<open>undefined\<close>. The guard
  \<^verbatim>\<open>!audioContextRef.current || muted || !beat.audioBuffer\<close> is evaluated from the left,
  so \<^verbatim>\<open>beat.audioBuffer\<close> is read, and throws for \<^verbatim>\<open>undefined\<close>, only when there is a
  context and the player is not muted.
\<close>

definition playBeatAudio :: "StoryBeat option \<Rightarrow> Player \<Rightarrow> error + Player" where
  "playBeatAudio beat p =
     (if audioContextRef p = None \<or> muted p then Inr p
      else case beat of
             None \<Rightarrow> Inl TypeError
           | Some b \<Rightarrow>
               (case audioBuffer b of
                  None \<Rightarrow> Inr p
                | Some buf \<Rightarrow> Inr (startSource buf (stopCurrent p))))"

subsection \<open>\<^verbatim>\<open>handleScroll\<close> (lines 47 to 61)\<close>

text \<open>
  \<open>ref\<close> is \<^verbatim>\<open>scrollContainerRef.current\<close> (\<open>None\<close> for \<^verbatim>\<open>null\<close>), \<open>innerHeight\<close> is
  \<^verbatim>\<open>window.innerHeight\<close>. The result is the state after the handler, with the state
  updates that it requested applied, and the error that it threw, if any. The handler
  that runs is the one of the latest render: the \<^verbatim>\<open>activeBeatIndex\<close> and \<^verbatim>\<open>muted\<close>
  that it reads are those of the state.
\<close>

definition candidateIndex :: "ScrollMetrics \<Rightarrow> rat \<Rightarrow> jsnum" where
  "candidateIndex m innerHeight = mathRound (jsDiv (scrollTop m) innerHeight)"

definition handleScroll ::
  "ScrollMetrics option \<Rightarrow> rat \<Rightarrow> RecallStory \<Rightarrow> Player \<Rightarrow> Player \<times> error option" where
  "handleScroll ref innerHeight st p =
     (case ref of
        None \<Rightarrow> (p, None)
      | Some m \<Rightarrow>
          (let progress = jsDiv (scrollTop m) (scrollHeight m - clientHeight m);
               p1 = p\<lparr>scrollProgress := progress\<rparr>;
               newIndex = candidateIndex m innerHeight
           in if strictNeq newIndex (activeBeatIndex p) \<and> lessThanLength newIndex (length (beats st))
              then
                (let p2 = p1\<lparr>activeBeatIndex := newIndex\<rparr>
                 in case playBeatAudio (elementAt (beats st) newIndex) p2 of
                      Inl e \<Rightarrow> (p2, Some e)
                    | Inr p3 \<Rightarrow> (p3, None))
              else (p1, None)))"

text \<open>
  A sequence of scroll events, each with the metrics and the \<^verbatim>\<open>window.innerHeight\<close> of
  its moment.
\<close>

fun scrollEvents :: "(ScrollMetrics \<times> rat) list \<Rightarrow> RecallStory \<Rightarrow> Player \<Rightarrow> Player" where
  "scrollEvents [] st p = p"
| "scrollEvents (e # es) st p =
     scrollEvents es st (fst (handleScroll (Some (fst e)) (snd e) st p))"

subsection \<open>Other events\<close>

text \<open>\<^verbatim>\<open>setMuted\<close>, the setter of the mute flag.\<close>

definition setMuted :: "bool \<Rightarrow> Player \<Rightarrow> Player" where
  "setMuted b p = p\<lparr>muted := b\<rparr>"

text \<open>The source at position \<open>k\<close> has played its buffer to the end.\<close>

definition sourceEnded :: "nat \<Rightarrow> Player \<Rightarrow> Player" where
  "sourceEnded k p = p\<lparr>sources := stopSource k (sources p)\<rparr>"

text \<open>
  The states of the player of a story: the state after mount, and every state that an
  event leads to from there. The state inside of \<^verbatim>\<open>playBeatAudio\<close>, when the current
  source has been stopped and the new one is not yet created, is one of them.
\<close>

inductive reachable :: "RecallStory \<Rightarrow> Player \<Rightarrow> bool" for st :: RecallStory where
  r_mount: "reachable st mount"
| r_scroll: "reachable st p \<Longrightarrow> reachable st (fst (handleScroll ref innerHeight st p))"
| r_stopped: "reachable st p \<Longrightarrow> reachable st (stopCurrent p)"
| r_ended: "reachable st p \<Longrightarrow> reachable st (sourceEnded k p)"
| r_muted: "reachable st p \<Longrightarrow> reachable st (setMuted b p)"
| r_unmount: "reachable st p \<Longrightarrow> reachable st (unmount p)"

text \<open>The number of sources that are sounding.\<close>

definition soundingCount :: "Player \<Rightarrow> nat" where
  "soundingCount p = length (filter sounding (sources p))"

section \<open>The claims in the words of the specification\<close>

text \<open>
  "The first itinerary point whose name case-insensitively contains the beat's
  locationName as a substring; otherwise, when the itinerary is non-empty, the point at
  position (beat index mod itinerary length); otherwise the location is left unset."
\<close>

definition containsIgnoringCase :: "(string \<Rightarrow> string) \<Rightarrow> string \<Rightarrow> string \<Rightarrow> bool" where
  "containsIgnoringCase toLowerCase s t = sublist (toLowerCase t) (toLowerCase s)"

definition resolveLocation_spec ::
  "(string \<Rightarrow> string) \<Rightarrow> LocationPoint list \<Rightarrow> RawBeat \<Rightarrow> LocationPoint option" where
  "resolveLocation_spec toLowerCase points b =
     (case List.find (\<lambda>l. containsIgnoringCase toLowerCase (name l) (b_locationName b)) points of
        Some l \<Rightarrow> Some l
      | None \<Rightarrow>
          if points \<noteq> [] then Some (points ! nat (b_index b mod int (length points)))
          else None)"

text \<open>"Beat indices are contiguous starting at 0 and strictly increasing by 1."\<close>

definition contiguousFromZero :: "StoryBeat list \<Rightarrow> bool" where
  "contiguousFromZero bs = (map index bs = map int [0 ..< length bs])"

text \<open>"Clamped to [0,1]."\<close>

definition clamp01 :: "rat \<Rightarrow> rat" where
  "clamp01 q = max 0 (min 1 q)"

text \<open>
  "On mount: open an audio output context; immediately trigger playback of beat 0's
  audio."
\<close>

definition mount_spec :: "RecallStory \<Rightarrow> Player" where
  "mount_spec st =
     (case playBeatAudio (elementAt (beats st) (Num 0)) (mountEffect initialPlayer) of
        Inl e \<Rightarrow> mountEffect initialPlayer
      | Inr p \<Rightarrow> p)"

section \<open>Auxiliary notions\<close>

text \<open>
  The state after a scroll event that makes \<open>c\<close> the active index, before any audio is
  touched.
\<close>

definition scrolledTo :: "jsnum \<Rightarrow> ScrollMetrics \<Rightarrow> Player \<Rightarrow> Player" where
  "scrolledTo c m p =
     p\<lparr>scrollProgress := jsDiv (scrollTop m) (scrollHeight m - clientHeight m),
       activeBeatIndex := c\<rparr>"

text \<open>
  In a state that satisfies \<open>onlyCurrentSounds\<close>, a source that is sounding is the
  current one.
\<close>

definition onlyCurrentSounds :: "Player \<Rightarrow> bool" where
  "onlyCurrentSounds p =
     (\<forall>k < length (sources p). sounding (sources p ! k) \<longrightarrow> currentSourceRef p = Some k)"

text \<open>A story collaborator that answers every request with the response \<open>r\<close>.\<close>

definition answering :: "RawJson \<Rightarrow> Params \<Rightarrow> error + RawJson" where
  "answering r params = Inr r"

text \<open>
  The number of beats of a result of assembly, their indices in the order of the beats,
  and whether these are contiguous from 0.
\<close>

definition beatCount :: "error + RecallStory \<Rightarrow> nat option" where
  "beatCount r = (case r of Inl e \<Rightarrow> None | Inr st \<Rightarrow> Some (length (beats st)))"

definition resultContiguous :: "error + RecallStory \<Rightarrow> bool" where
  "resultContiguous r = (case r of Inl e \<Rightarrow> False | Inr st \<Rightarrow> contiguousFromZero (beats st))"

definition beatIndices :: "error + RecallStory \<Rightarrow> int list option" where
  "beatIndices r = (case r of Inl e \<Rightarrow> None | Inr st \<Rightarrow> Some (map index (beats st)))"

section \<open>Concrete inputs\<close>

text \<open>
  \<^verbatim>\<open>String.prototype.toLowerCase\<close> for the strings of the inputs below, which hold
  ASCII characters only: the letters A to Z are replaced by a to z. It stands for the
  parameter \<open>toLowerCase\<close> where a definition is evaluated at such an input, and says
  nothing about other strings.
\<close>

definition lowerAsciiChar :: "char \<Rightarrow> char" where
  "lowerAsciiChar c =
     (let n = (of_char c :: nat)
      in if of_char CHR ''A'' \<le> n \<and> n \<le> of_char CHR ''Z'' then char_of (n + 32) else c)"

definition toLowerCaseAscii :: "string \<Rightarrow> string" where
  "toLowerCaseAscii s = map lowerAsciiChar s"

definition rome :: LocationPoint where
  "rome = \<lparr> name = ''Rome'', lat = 419 / 10, lng = 125 / 10, description = None \<rparr>"

definition venice :: LocationPoint where
  "venice = \<lparr> name = ''Venice'', lat = 454 / 10, lng = 123 / 10, description = None \<rparr>"

definition rawBeatAt :: "int \<Rightarrow> string \<Rightarrow> RawBeat" where
  "rawBeatAt i l = \<lparr> b_index = i, b_text = ''A narrated scene.'', b_locationName = l, b_mediaId = None \<rparr>"

definition beatWith :: "int \<Rightarrow> AudioBuffer option \<Rightarrow> StoryBeat" where
  "beatWith i a =
     \<lparr> index = i, narration = ''A narrated scene.'', associatedMediaId = None, location = None,
       audioBuffer = a \<rparr>"

definition exampleStory :: RecallStory where
  "exampleStory =
     \<lparr> title = ''Rome to Venice'',
       beats = [beatWith 0 (Some [1]), beatWith 1 (Some [2]), beatWith 2 None] \<rparr>"

definition atOffset :: "rat \<Rightarrow> ScrollMetrics" where
  "atOffset y = \<lparr> scrollTop = y, scrollHeight = 4000, clientHeight = 1000 \<rparr>"

definition playingBeat1 :: Player where
  "playingBeat1 = fst (handleScroll (Some (atOffset 1000)) 1000 exampleStory mount)"

definition backAtBeat0 :: Player where
  "backAtBeat0 = fst (handleScroll (Some (atOffset 0)) 1000 exampleStory playingBeat1)"


definition fourMedia :: "MediaItem list" where
  "fourMedia =
     map (\<lambda>n. \<lparr> item_id = ''media-'' @ showNat n, url = ''blob:photo'', mimeType = ''image/jpeg'',
                 item_description = None, item_location = None,
                 timestamp = ''2025-06-01T10:00:00.000Z'', base64 = None,
                 source = Some cloud \<rparr>) [0, 1, 2, 3]"

definition generatedFrame :: MediaItem where
  "generatedFrame =
     \<lparr> item_id = ''ai-17'', url = ''data:image/png;base64,AAAA'', mimeType = ''image/png'',
       item_description = None, item_location = None,
       timestamp = ''2025-06-01T10:00:00.000Z'',
       base64 = Some ''data:image/png;base64,AAAA'', source = Some ai \<rparr>"

definition neonNoir :: CutPack where
  "neonNoir = \<lparr> cp_id = ''neon-noir'', category = Moody, cp_name = ''Neon Noir'',
                promise = ''Rain-slicked nights'', cp_description = ''Moody night scenes'' \<rparr>"

definition heroArc :: StoryArc where
  "heroArc = \<lparr> arc_id = ''hero'', arc_name = ''Hero Journey'', structure = ''Three acts'',
               bestFor = ''Long trips'' \<rparr>"

definition romeThenVenice :: Params where
  "romeThenVenice =
     \<lparr> p_title = ''REELCHEMY VOYAGE'', p_cutPack = neonNoir, p_arc = heroArc,
       p_pace = Balanced, p_focus = [Vistas, Details], p_ending = SoftLanding,
       p_media = fourMedia, p_itinerary = [rome, venice] \<rparr>"

definition responseWith :: "int list \<Rightarrow> RawJson" where
  "responseWith is =
     \<lparr> rawTitle = Some ''Two Cities'', rawBeats = Some (map (\<lambda>i. rawBeatAt i ''venice'') is) \<rparr>"

definition noBeats :: RawJson where
  "noBeats = \<lparr> rawTitle = Some ''Two Cities'', rawBeats = None \<rparr>"

definition fiveBeats :: RawJson where
  "fiveBeats =
     \<lparr> rawTitle = Some ''Two Cities'',
       rawBeats = Some (map (\<lambda>i. rawBeatAt i ''venice'') [0, 1, 2, 3, 4]) \<rparr>"

definition secondFails :: Collaborators where
  "secondFails =
     \<lparr> analyze = analyzeTripAndGenerateStory2 toLowerCaseAscii (answering fiveBeats),
       generateBeatAudio = (\<lambda>i t v. if i = 1 then Inl (CollaboratorError ''Audio generation failed'')
                                      else Inr [i]),
       decodeAudioData = (\<lambda>i ab. Inr ab) \<rparr>"

definition designing :: App where
  "designing =
     \<lparr> appState = DESIGNING, tripTitle = ''REELCHEMY VOYAGE'', media = [],
       itinerary = [rome, venice], story = None, loadingMsg = [], isProcessing = False,
       selectedCutPack = neonNoir, selectedArc = heroArc, pace = Balanced,
       focus = [Vistas, Details], ending = SoftLanding \<rparr>"

section \<open>Location of a beat\<close>

lemma jsIncludes_sublist: "jsIncludes s t \<longleftrightarrow> sublist t s"
  by (induction s) (auto simp: sublist_Cons_right)

lemma nameMatches_spec:
  "nameMatches toLowerCase b l = containsIgnoringCase toLowerCase (name l) (b_locationName b)"
  by (simp add: nameMatches_def containsIgnoringCase_def jsIncludes_sublist)

lemma find_nameMatches:
  "List.find (nameMatches toLowerCase b) it =
   List.find (\<lambda>l. containsIgnoringCase toLowerCase (name l) (b_locationName b)) it"
  by (rule arg_cong [where f = "\<lambda>P. List.find P it"]) (auto simp: nameMatches_spec)

lemma fallback_nonneg:
  assumes "0 \<le> i"
  shows "arrayGet xs (jsRem i (if length xs = 0 then 1 else int (length xs))) =
         (if xs \<noteq> [] then Some (xs ! nat (i mod int (length xs))) else None)"
proof (cases "xs = []")
  case True
  then show ?thesis using assms by (simp add: arrayGet_def jsRem_def)
next
  case False
  then have "0 < int (length xs)" by simp
  then have "0 \<le> i mod int (length xs)" "i mod int (length xs) < int (length xs)"
    by simp_all
  with False assms show ?thesis by (simp add: arrayGet_def jsRem_def)
qed

text \<open>
  Where the claim holds: for every way of lowering strings, the location of a beat is
  the one that the claim names when a point matches the name of the beat (whatever its
  index), when the itinerary is empty, and when the index of the beat is not negative.
\<close>

lemma resolveLocation_agrees:
  assumes "List.find (nameMatches toLowerCase b) points \<noteq> None \<or> points = [] \<or> 0 \<le> b_index b"
  shows "location (toStoryBeat toLowerCase points b) = resolveLocation_spec toLowerCase points b"
proof (cases "List.find (nameMatches toLowerCase b) points")
  case (Some l)
  then show ?thesis
    by (simp add: toStoryBeat_def resolveLocation_def resolveLocation_spec_def
          find_nameMatches [symmetric])
next
  case None
  with assms have "points = [] \<or> 0 \<le> b_index b" by simp
  then show ?thesis
  proof
    assume "points = []"
    then show ?thesis
      by (simp add: toStoryBeat_def resolveLocation_def resolveLocation_spec_def arrayGet_def)
  next
    assume "0 \<le> b_index b"
    then show ?thesis
      unfolding toStoryBeat_def resolveLocation_def resolveLocation_spec_def find_nameMatches
        fallback_nonneg [OF \<open>0 \<le> b_index b\<close>]
      by simp
  qed
qed

text \<open>
  The scenario of the specification: the raw beat with \<^verbatim>\<open>locationName: "venice"\<close> and
  the itinerary of Rome and Venice; the beat is located at Venice.
\<close>

lemma venice_scenario:
  "location (toStoryBeat toLowerCaseAscii [rome, venice] (rawBeatAt 0 ''venice'')) = Some venice"
  by code_simp

text \<open>
  Claim C1, at its failing input. A raw beat with the index \<open>-1\<close> against the itinerary
  of Rome and Venice has a location only when a point matches its name, for every way
  of lowering strings and every name: \<^verbatim>\<open>-1 % 2\<close> is \<open>-1\<close>, and \<^verbatim>\<open>itinerary[-1]\<close> is
  \<^verbatim>\<open>undefined\<close>. For the name \<^verbatim>\<open>paris\<close> no point matches and the location is unset,
  where the claim names the point at position \<open>-1 mod 2 = 1\<close>, Venice.
\<close>

theorem C1_negative_index_unset:
  "location (toStoryBeat toLowerCase [rome, venice] (rawBeatAt (- 1) l))
     = List.find (nameMatches toLowerCase (rawBeatAt (- 1) l)) [rome, venice]
   \<and> location (toStoryBeat toLowerCaseAscii [rome, venice] (rawBeatAt (- 1) ''paris'')) = None
   \<and> resolveLocation_spec toLowerCaseAscii [rome, venice] (rawBeatAt (- 1) ''paris'')
       = Some venice"
proof -
  have "jsRem (- 1) 2 = - 1" by (simp add: jsRem_def)
  then have "location (toStoryBeat toLowerCase [rome, venice] (rawBeatAt (- 1) l))
     = List.find (nameMatches toLowerCase (rawBeatAt (- 1) l)) [rome, venice]"
    by (simp add: toStoryBeat_def resolveLocation_def rawBeatAt_def arrayGet_def
          split: option.splits)
  moreover have
    "location (toStoryBeat toLowerCaseAscii [rome, venice] (rawBeatAt (- 1) ''paris'')) = None"
    by code_simp
  moreover have
    "resolveLocation_spec toLowerCaseAscii [rome, venice] (rawBeatAt (- 1) ''paris'') = Some venice"
    by code_simp
  ultimately show ?thesis by simp
qed

section \<open>At most one source is sounding\<close>

lemma length_stopSource [simp]: "length (stopSource k srcs) = length srcs"
  by (simp add: stopSource_def)

lemma sounding_stopSource:
  "j < length srcs \<Longrightarrow> sounding (stopSource k srcs ! j) = (j \<noteq> k \<and> sounding (srcs ! j))"
  by (auto simp: stopSource_def nth_list_update)

lemma filter_at_most_one:
  "(\<forall>i < length xs. \<forall>j < length xs. P (xs ! i) \<and> P (xs ! j) \<longrightarrow> i = j)
   \<Longrightarrow> length (filter P xs) \<le> 1"
proof (induction xs)
  case Nil
  then show ?case by simp
next
  case (Cons x xs)
  have tl: "\<forall>i < length xs. \<forall>j < length xs. P (xs ! i) \<and> P (xs ! j) \<longrightarrow> i = j"
  proof (intro allI impI)
    fix i j assume "i < length xs" "j < length xs" "P (xs ! i) \<and> P (xs ! j)"
    with Cons.prems have "Suc i = Suc j"
      by (metis length_Cons nth_Cons_Suc Suc_less_eq)
    then show "i = j" by simp
  qed
  show ?case
  proof (cases "P x")
    case False
    with Cons.IH [OF tl] show ?thesis by simp
  next
    case True
    have "\<not> P y" if "y \<in> set xs" for y
    proof
      assume "P y"
      from that obtain i where i: "i < length xs" "xs ! i = y"
        by (auto simp: in_set_conv_nth)
      with Cons.prems True \<open>P y\<close> have "Suc i = 0"
        by (metis length_Cons nth_Cons_0 nth_Cons_Suc Suc_less_eq zero_less_Suc)
      then show False by simp
    qed
    then have "filter P xs = []" by (simp add: filter_empty_conv)
    with True show ?thesis by simp
  qed
qed

lemma onlyCurrent_count: "onlyCurrentSounds p \<Longrightarrow> soundingCount p \<le> 1"
  unfolding soundingCount_def
proof (rule filter_at_most_one, intro allI impI)
  fix i j
  assume a: "onlyCurrentSounds p" and i: "i < length (sources p)" and j: "j < length (sources p)"
    and s: "sounding (sources p ! i) \<and> sounding (sources p ! j)"
  from a i s have "currentSourceRef p = Some i" by (simp add: onlyCurrentSounds_def)
  moreover from a j s have "currentSourceRef p = Some j" by (simp add: onlyCurrentSounds_def)
  ultimately show "i = j" by simp
qed

lemma silent_stopCurrent:
  assumes "onlyCurrentSounds p" "k < length (sources p)"
  shows "\<not> sounding (sources (stopCurrent p) ! k)"
  using assms
  by (auto simp: onlyCurrentSounds_def stopCurrent_def sounding_stopSource split: option.splits)

lemma soundingCount_stopCurrent:
  assumes "onlyCurrentSounds p"
  shows "soundingCount (stopCurrent p) = 0"
proof -
  have len: "length (sources (stopCurrent p)) = length (sources p)"
    by (simp add: stopCurrent_def split: option.splits)
  have "\<not> sounding src" if "src \<in> set (sources (stopCurrent p))" for src
  proof -
    from that obtain k where "k < length (sources (stopCurrent p))" "sources (stopCurrent p) ! k = src"
      by (auto simp: in_set_conv_nth)
    with silent_stopCurrent [OF assms, of k] len show ?thesis by auto
  qed
  then show ?thesis by (simp add: soundingCount_def filter_empty_conv)
qed

lemma onlyCurrent_mount: "onlyCurrentSounds mount"
  by (simp add: onlyCurrentSounds_def mount_def mountEffect_def initialPlayer_def)

lemma onlyCurrent_stopCurrent: "onlyCurrentSounds p \<Longrightarrow> onlyCurrentSounds (stopCurrent p)"
  by (auto simp: onlyCurrentSounds_def stopCurrent_def sounding_stopSource split: option.splits)

lemma onlyCurrent_startSource:
  assumes "onlyCurrentSounds p"
  shows "onlyCurrentSounds (startSource buf (stopCurrent p))"
proof -
  have len: "length (sources (stopCurrent p)) = length (sources p)"
    by (simp add: stopCurrent_def split: option.splits)
  show ?thesis
    unfolding onlyCurrentSounds_def
  proof (intro allI impI)
    fix k
    assume k: "k < length (sources (startSource buf (stopCurrent p)))"
      and s: "sounding (sources (startSource buf (stopCurrent p)) ! k)"
    show "currentSourceRef (startSource buf (stopCurrent p)) = Some k"
    proof (cases "k < length (sources p)")
      case True
      with s len silent_stopCurrent [OF assms True] show ?thesis
        by (simp add: startSource_def nth_append)
    next
      case False
      with k len show ?thesis by (simp add: startSource_def)
    qed
  qed
qed

lemma onlyCurrent_playBeatAudio:
  "onlyCurrentSounds p \<Longrightarrow> playBeatAudio beat p = Inr p' \<Longrightarrow> onlyCurrentSounds p'"
  by (auto simp: playBeatAudio_def onlyCurrent_startSource split: if_splits option.splits)

lemma onlyCurrent_fields:
  "onlyCurrentSounds (p\<lparr>scrollProgress := x\<rparr>) = onlyCurrentSounds p"
  "onlyCurrentSounds (p\<lparr>activeBeatIndex := y\<rparr>) = onlyCurrentSounds p"
  "onlyCurrentSounds (p\<lparr>muted := b\<rparr>) = onlyCurrentSounds p"
  by (simp_all add: onlyCurrentSounds_def)

lemma onlyCurrent_handleScroll:
  assumes "onlyCurrentSounds p"
  shows "onlyCurrentSounds (fst (handleScroll ref innerHeight st p))"
proof (cases ref)
  case None
  with assms show ?thesis by (simp add: handleScroll_def)
next
  case (Some m)
  let ?p2 = "p\<lparr>scrollProgress := jsDiv (scrollTop m) (scrollHeight m - clientHeight m),
                activeBeatIndex := candidateIndex m innerHeight\<rparr>"
  from assms have p2: "onlyCurrentSounds ?p2" by (simp add: onlyCurrent_fields)
  show ?thesis
    using Some assms p2 onlyCurrent_playBeatAudio [OF p2]
    by (auto simp: handleScroll_def Let_def onlyCurrent_fields split: sum.splits)
qed

lemma onlyCurrent_sourceEnded: "onlyCurrentSounds p \<Longrightarrow> onlyCurrentSounds (sourceEnded k p)"
  by (auto simp: onlyCurrentSounds_def sourceEnded_def sounding_stopSource)

lemma onlyCurrent_unmount: "onlyCurrentSounds p \<Longrightarrow> onlyCurrentSounds (unmount p)"
  by (auto simp: onlyCurrentSounds_def unmount_def split: option.splits)

lemma reachable_onlyCurrent: "reachable st p \<Longrightarrow> onlyCurrentSounds p"
proof (induction rule: reachable.induct)
  case r_mount
  show ?case by (rule onlyCurrent_mount)
next
  case (r_scroll p ref innerHeight)
  then show ?case by (simp add: onlyCurrent_handleScroll)
next
  case (r_stopped p)
  then show ?case by (simp add: onlyCurrent_stopCurrent)
next
  case (r_ended p k)
  then show ?case by (simp add: onlyCurrent_sourceEnded)
next
  case (r_muted p b)
  then show ?case by (simp add: setMuted_def onlyCurrent_fields)
next
  case (r_unmount p)
  then show ?case by (simp add: onlyCurrent_unmount)
qed

text \<open>
  Claim C3. In every state of the player that can be reached, at most one source is
  sounding; and where \<^verbatim>\<open>playBeatAudio\<close> starts a source (there is a context, the
  player is not muted, the beat has a buffer), it starts it in the state that stopping
  the current source leaves, in which no source is sounding.
\<close>

theorem C3_at_most_one_sounding:
  assumes "reachable st p"
  shows "soundingCount p \<le> 1
         \<and> (\<forall>b buf. audioContextRef p \<noteq> None \<and> \<not> muted p \<and> audioBuffer b = Some buf \<longrightarrow>
               playBeatAudio (Some b) p = Inr (startSource buf (stopCurrent p))
               \<and> soundingCount (stopCurrent p) = 0)"
proof -
  from assms have inv: "onlyCurrentSounds p" by (rule reachable_onlyCurrent)
  show ?thesis
    using onlyCurrent_count [OF inv] soundingCount_stopCurrent [OF inv]
    by (auto simp: playBeatAudio_def)
qed

theorem C3_witness:
  "reachable exampleStory playingBeat1
   \<and> soundingCount playingBeat1 \<le> 1
   \<and> audioContextRef playingBeat1 \<noteq> None \<and> \<not> muted playingBeat1
   \<and> audioBuffer (beatWith 0 (Some [1])) = Some [1]
   \<and> playBeatAudio (Some (beatWith 0 (Some [1]))) playingBeat1
       = Inr (startSource [1] (stopCurrent playingBeat1))
   \<and> soundingCount (stopCurrent playingBeat1) = 0"
proof -
  have r: "reachable exampleStory playingBeat1"
    unfolding playingBeat1_def by (rule r_scroll [OF r_mount])
  have "audioContextRef playingBeat1 = Some Running" and "muted playingBeat1 = False"
    by code_simp+
  then have h: "audioContextRef playingBeat1 \<noteq> None \<and> \<not> muted playingBeat1
                \<and> audioBuffer (beatWith 0 (Some [1])) = Some [1]"
    by (simp add: beatWith_def)
  from C3_at_most_one_sounding [OF r] h r show ?thesis by blast
qed

section \<open>Mount and scroll events\<close>

lemma scroll_at_beat0:
  assumes "activeBeatIndex p = Num 0" and "candidateIndex m innerHeight = Num 0"
  shows "handleScroll (Some m) innerHeight st p =
           (p\<lparr>scrollProgress := jsDiv (scrollTop m) (scrollHeight m - clientHeight m)\<rparr>, None)"
  using assms by (simp add: handleScroll_def Let_def strictNeq_def)

lemma scrollEvents_at_beat0:
  assumes "\<forall>e \<in> set es. candidateIndex (fst e) (snd e) = Num 0"
    and "activeBeatIndex p = Num 0"
  shows "sources (scrollEvents es st p) = sources p
         \<and> currentSourceRef (scrollEvents es st p) = currentSourceRef p
         \<and> activeBeatIndex (scrollEvents es st p) = Num 0"
  using assms
proof (induction es arbitrary: p)
  case Nil
  then show ?case by simp
next
  case (Cons e es)
  let ?p = "p\<lparr>scrollProgress := jsDiv (scrollTop (fst e)) (scrollHeight (fst e) - clientHeight (fst e))\<rparr>"
  from Cons.prems have step: "fst (handleScroll (Some (fst e)) (snd e) st p) = ?p"
    by (simp add: scroll_at_beat0)
  from Cons.prems have "\<forall>e \<in> set es. candidateIndex (fst e) (snd e) = Num 0"
    and "activeBeatIndex ?p = Num 0"
    by simp_all
  from Cons.IH [OF this] step show ?case by simp
qed

text \<open>
  Claim C4, amended. On mount an audio context is opened, beat 0 is the active beat, and
  no source is created or started. In every state in which beat 0 is the active beat, a
  scroll event whose candidate index is 0 changes \<^verbatim>\<open>scrollProgress\<close> and nothing else;
  so after mount and any number of such scroll events there is still no source.
\<close>

theorem C4_mount_opens_context_only:
  "audioContextRef mount = Some Running \<and> activeBeatIndex mount = Num 0
   \<and> sources mount = [] \<and> currentSourceRef mount = None
   \<and> (activeBeatIndex p = Num 0 \<and> candidateIndex m innerHeight = Num 0 \<longrightarrow>
        handleScroll (Some m) innerHeight st p =
          (p\<lparr>scrollProgress := jsDiv (scrollTop m) (scrollHeight m - clientHeight m)\<rparr>, None))
   \<and> ((\<forall>e \<in> set es. candidateIndex (fst e) (snd e) = Num 0) \<longrightarrow>
        sources (scrollEvents es st mount) = []
        \<and> currentSourceRef (scrollEvents es st mount) = None
        \<and> activeBeatIndex (scrollEvents es st mount) = Num 0)"
proof -
  have m: "audioContextRef mount = Some Running \<and> activeBeatIndex mount = Num 0
           \<and> sources mount = [] \<and> currentSourceRef mount = None"
    by (simp add: mount_def mountEffect_def initialPlayer_def)
  then have "activeBeatIndex mount = Num 0" by simp
  from scrollEvents_at_beat0 [OF _ this, of es st] m scroll_at_beat0 [of p m innerHeight st]
  show ?thesis by simp
qed

theorem C4_witness:
  "activeBeatIndex backAtBeat0 = Num 0
   \<and> candidateIndex (atOffset 400) 1000 = Num 0
   \<and> handleScroll (Some (atOffset 400)) 1000 exampleStory backAtBeat0 =
       (backAtBeat0\<lparr>scrollProgress := Num (2 / 15)\<rparr>, None)
   \<and> candidateIndex (atOffset 100) 1000 = Num 0
   \<and> sources (scrollEvents [(atOffset 400, 1000), (atOffset 100, 1000)] exampleStory mount) = []"
proof -
  have h1: "activeBeatIndex backAtBeat0 = Num 0" by code_simp
  have h2: "candidateIndex (atOffset 400) 1000 = Num 0" by code_simp
  have h3: "candidateIndex (atOffset 100) 1000 = Num 0" by code_simp
  from h2 h3
  have h4: "\<forall>e \<in> set [(atOffset 400, 1000), (atOffset 100, 1000)].
              candidateIndex (fst e) (snd e) = Num 0"
    by simp
  have q: "jsDiv (scrollTop (atOffset 400)) (scrollHeight (atOffset 400) - clientHeight (atOffset 400))
           = Num (2 / 15)"
    by (simp add: jsDiv_def atOffset_def)
  from C4_mount_opens_context_only
         [of backAtBeat0 "atOffset 400" 1000 exampleStory
             "[(atOffset 400, 1000), (atOffset 100, 1000)]"]
       h1 h2 h3 h4 q
  show ?thesis by simp
qed

text \<open>
  After mount no source is sounding, where the claim has the source of beat 0 sounding.
\<close>

theorem C4_counterexample:
  "soundingCount mount = 0 \<and> soundingCount (mount_spec exampleStory) = 1"
  by code_simp

lemma elementAt_nat: "k < length xs \<Longrightarrow> elementAt xs (Num (of_nat k)) = Some (xs ! k)"
  by simp

lemma handleScroll_transition:
  assumes "candidateIndex m innerHeight = Num (of_nat k)"
    and "k < length (beats st)"
    and "strictNeq (Num (of_nat k)) (activeBeatIndex p)"
  shows "handleScroll (Some m) innerHeight st p =
           (case (if audioContextRef p = None \<or> muted p then None
                  else audioBuffer (beats st ! k)) of
              None \<Rightarrow> scrolledTo (Num (of_nat k)) m p
            | Some buf \<Rightarrow> startSource buf (stopCurrent (scrolledTo (Num (of_nat k)) m p)),
            None)"
  using assms
  by (simp add: handleScroll_def Let_def playBeatAudio_def scrolledTo_def elementAt_nat
        del: elementAt.simps split: option.splits)

lemma scrolledTo_fields [simp]:
  "sources (scrolledTo c m p) = sources p"
  "currentSourceRef (scrolledTo c m p) = currentSourceRef p"
  "audioContextRef (scrolledTo c m p) = audioContextRef p"
  "activeBeatIndex (scrolledTo c m p) = c"
  by (simp_all add: scrolledTo_def)

lemma stopCurrent_fields [simp]:
  "length (sources (stopCurrent p)) = length (sources p)"
  "audioContextRef (stopCurrent p) = audioContextRef p"
  "activeBeatIndex (stopCurrent p) = activeBeatIndex p"
  by (simp_all add: stopCurrent_def split: option.splits)

lemma onlyCurrent_scrolledTo: "onlyCurrentSounds (scrolledTo c m p) = onlyCurrentSounds p"
  by (simp add: onlyCurrentSounds_def)

lemma soundingCount_startSource:
  "soundingCount (startSource buf p) =
     soundingCount p + (if audioContextRef p = Some Running then 1 else 0)"
  by (simp add: soundingCount_def startSource_def)

text \<open>
  Claim C5, amended. In a state that can be reached, on a scroll event whose candidate
  index \<open>k\<close> differs from the active index and is the position of a beat, the active
  index becomes \<open>k\<close> in every case and nothing is thrown. When there is an audio
  context, the player is not muted and beat \<open>k\<close> has a buffer: none of the sources that
  existed before is sounding afterwards, the one that was sounding included; a new
  source for the buffer of beat \<open>k\<close> is the current one and, on a running context, the
  only one that is sounding; and it was started in a state in which none was sounding.
  Otherwise the sources and the current source are left as they are, so that a source
  that is sounding keeps sounding.
\<close>

theorem C5_index_transition:
  assumes "reachable st p"
    and "candidateIndex m innerHeight = Num (of_nat k)"
    and "k < length (beats st)"
    and "strictNeq (Num (of_nat k)) (activeBeatIndex p)"
    and "handleScroll (Some m) innerHeight st p = (p', thrown)"
  shows "thrown = None \<and> activeBeatIndex p' = Num (of_nat k)
         \<and> (case (if audioContextRef p = None \<or> muted p then None
                  else audioBuffer (beats st ! k)) of
              None \<Rightarrow> sources p' = sources p \<and> currentSourceRef p' = currentSourceRef p
            | Some buf \<Rightarrow>
                length (sources p') = Suc (length (sources p))
                \<and> (\<forall>j < length (sources p). \<not> sounding (sources p' ! j))
                \<and> sources p' ! length (sources p)
                    = \<lparr> buffer = buf, sounding = (audioContextRef p = Some Running) \<rparr>
                \<and> currentSourceRef p' = Some (length (sources p))
                \<and> soundingCount p' = (if audioContextRef p = Some Running then 1 else 0)
                \<and> soundingCount (stopCurrent (scrolledTo (Num (of_nat k)) m p)) = 0
                \<and> p' = startSource buf (stopCurrent (scrolledTo (Num (of_nat k)) m p)))"
proof -
  let ?p2 = "scrolledTo (Num (of_nat k)) m p"
  from assms(1) have "onlyCurrentSounds p" by (rule reachable_onlyCurrent)
  then have inv: "onlyCurrentSounds ?p2" by (simp add: onlyCurrent_scrolledTo)
  have silent: "\<not> sounding (sources (stopCurrent ?p2) ! j)" if "j < length (sources p)" for j
    using silent_stopCurrent [OF inv, of j] that by simp
  have zero: "soundingCount (stopCurrent ?p2) = 0"
    by (rule soundingCount_stopCurrent [OF inv])
  from handleScroll_transition [OF assms(2,3,4)] assms(5)
  have res: "thrown = None"
    "p' = (case (if audioContextRef p = None \<or> muted p then None
                 else audioBuffer (beats st ! k)) of
             None \<Rightarrow> ?p2 | Some buf \<Rightarrow> startSource buf (stopCurrent ?p2))"
    by simp_all
  show ?thesis
  proof (cases "if audioContextRef p = None \<or> muted p then None else audioBuffer (beats st ! k)")
    case None
    with res show ?thesis by simp
  next
    case (Some buf)
    with res have p': "p' = startSource buf (stopCurrent ?p2)" by simp
    have "\<forall>j < length (sources p). \<not> sounding (sources p' ! j)"
      using silent by (simp add: p' startSource_def nth_append)
    moreover have "sources p' ! length (sources p)
                     = \<lparr> buffer = buf, sounding = (audioContextRef p = Some Running) \<rparr>"
      by (simp add: p' startSource_def nth_append)
    moreover have "soundingCount p' = (if audioContextRef p = Some Running then 1 else 0)"
      using zero by (simp add: p' soundingCount_startSource)
    moreover have "length (sources p') = Suc (length (sources p))"
      "currentSourceRef p' = Some (length (sources p))" "activeBeatIndex p' = Num (of_nat k)"
      by (simp_all add: p' startSource_def)
    ultimately show ?thesis using Some res(1) zero p' by simp
  qed
qed

text \<open>
  While the source of beat 1 is sounding, a scroll back to beat 0 stops it and starts
  the source of beat 0.
\<close>

theorem C5_witness:
  "reachable exampleStory playingBeat1
   \<and> candidateIndex (atOffset 0) 1000 = Num (of_nat 0)
   \<and> 0 < length (beats exampleStory)
   \<and> strictNeq (Num (of_nat 0)) (activeBeatIndex playingBeat1)
   \<and> handleScroll (Some (atOffset 0)) 1000 exampleStory playingBeat1 = (backAtBeat0, None)
   \<and> sources playingBeat1 = [\<lparr> buffer = [2], sounding = True \<rparr>]
   \<and> activeBeatIndex backAtBeat0 = Num 0
   \<and> \<not> sounding (sources backAtBeat0 ! 0)
   \<and> sources backAtBeat0 ! 1 = \<lparr> buffer = [1], sounding = True \<rparr>
   \<and> currentSourceRef backAtBeat0 = Some 1
   \<and> soundingCount backAtBeat0 = 1"
proof -
  have r: "reachable exampleStory playingBeat1"
    unfolding playingBeat1_def by (rule r_scroll [OF r_mount])
  have h1: "candidateIndex (atOffset 0) 1000 = Num (of_nat 0)" by code_simp
  have h2: "0 < length (beats exampleStory)" by (simp add: exampleStory_def)
  have h3: "strictNeq (Num (of_nat 0)) (activeBeatIndex playingBeat1)" by code_simp
  have h4: "handleScroll (Some (atOffset 0)) 1000 exampleStory playingBeat1 = (backAtBeat0, None)"
    by code_simp
  have before: "sources playingBeat1 = [\<lparr> buffer = [2], sounding = True \<rparr>]"
    "audioContextRef playingBeat1 = Some Running" "muted playingBeat1 = False"
    by code_simp+
  have slot: "audioBuffer (beats exampleStory ! 0) = Some [1]"
    by (simp add: exampleStory_def beatWith_def)
  from C5_index_transition [OF r h1 h2 h3 h4] before slot r h1 h2 h3 h4
  show ?thesis by simp
qed

text \<open>
  While the source of beat 1 is sounding, a scroll to beat 2, which has no audio, makes 2
  the active index and leaves that source sounding.
\<close>

theorem C5_counterexample:
  "soundingCount playingBeat1 = 1
   \<and> candidateIndex (atOffset 2000) 1000 = Num 2
   \<and> activeBeatIndex (fst (handleScroll (Some (atOffset 2000)) 1000 exampleStory playingBeat1)) = Num 2
   \<and> sources (fst (handleScroll (Some (atOffset 2000)) 1000 exampleStory playingBeat1))
       = [\<lparr> buffer = [2], sounding = True \<rparr>]"
  by code_simp
text \<open>
  Claim C6, amended. After a scroll event \<^verbatim>\<open>scrollProgress\<close> is the quotient
  \<^verbatim>\<open>scrollTop / (scrollHeight - clientHeight)\<close>, a function of these three metrics
  alone, and unclamped; it is the clamped quotient when
  \<open>0 \<le> scrollTop \<le> scrollHeight - clientHeight\<close> and \<open>clientHeight < scrollHeight\<close>.
\<close>

theorem C6_scrollProgress:
  "scrollProgress (fst (handleScroll (Some m) innerHeight st p))
     = jsDiv (scrollTop m) (scrollHeight m - clientHeight m)
   \<and> (0 \<le> scrollTop m \<and> scrollTop m \<le> scrollHeight m - clientHeight m
        \<and> clientHeight m < scrollHeight m \<longrightarrow>
      scrollProgress (fst (handleScroll (Some m) innerHeight st p))
        = Num (clamp01 (scrollTop m / (scrollHeight m - clientHeight m))))"
proof -
  have 1: "scrollProgress (fst (handleScroll (Some m) innerHeight st p))
     = jsDiv (scrollTop m) (scrollHeight m - clientHeight m)"
    by (auto simp: handleScroll_def Let_def playBeatAudio_def startSource_def stopCurrent_def
          split: sum.splits option.splits)
  have 2: "jsDiv a b = Num (clamp01 (a / b))" if "0 \<le> a" "a \<le> b" "0 < b" for a b :: rat
  proof -
    from that have "0 \<le> a / b" "a / b \<le> 1" by simp_all
    with that show ?thesis by (simp add: jsDiv_def clamp01_def)
  qed
  show ?thesis using 1 2 [of "scrollTop m" "scrollHeight m - clientHeight m"] by simp
qed

theorem C6_witness:
  "0 \<le> scrollTop (atOffset 1000)
   \<and> scrollTop (atOffset 1000) \<le> scrollHeight (atOffset 1000) - clientHeight (atOffset 1000)
   \<and> clientHeight (atOffset 1000) < scrollHeight (atOffset 1000)
   \<and> scrollProgress (fst (handleScroll (Some (atOffset 1000)) 1000 exampleStory mount))
       = Num (1 / 3)"
proof -
  let ?m = "atOffset 1000"
  have h: "0 \<le> scrollTop ?m \<and> scrollTop ?m \<le> scrollHeight ?m - clientHeight ?m
           \<and> clientHeight ?m < scrollHeight ?m"
    by (simp add: atOffset_def)
  with C6_scrollProgress [of ?m 1000 exampleStory mount]
  have "scrollProgress (fst (handleScroll (Some ?m) 1000 exampleStory mount))
          = Num (clamp01 (scrollTop ?m / (scrollHeight ?m - clientHeight ?m)))"
    by blast
  moreover have "clamp01 (scrollTop ?m / (scrollHeight ?m - clientHeight ?m)) = 1 / 3"
    by (simp add: atOffset_def clamp01_def)
  ultimately show ?thesis using h by simp
qed

text \<open>
  With the negative \<^verbatim>\<open>scrollTop\<close> of an elastic overscroll the progress is negative,
  where the clamped quotient is 0.
\<close>

theorem C6_counterexample:
  "scrollProgress (fst (handleScroll (Some (atOffset (- 100))) 1000 exampleStory mount))
     = Num (- 1 / 30)
   \<and> clamp01 (scrollTop (atOffset (- 100))
        / (scrollHeight (atOffset (- 100)) - clientHeight (atOffset (- 100)))) = 0"
  by code_simp

section \<open>Assembly\<close>

text \<open>
  Claim C7, amended. When the collaborator's response has a \<^verbatim>\<open>beats\<close> field, both
  definitions of assembly return a story with exactly as many beats as the response
  holds, whatever the number of media items.
\<close>

theorem C7_beat_count:
  assumes "respond params = Inr rawJson" and "rawBeats rawJson = Some bs"
  shows "beatCount (analyzeTripAndGenerateStory1 toLowerCase respond params) = Some (length bs)
         \<and> beatCount (analyzeTripAndGenerateStory2 toLowerCase respond params) = Some (length bs)"
  using assms
  by (simp add: beatCount_def analyzeTripAndGenerateStory1_def analyzeTripAndGenerateStory2_def
        storyOfResponse1_def storyOfResponse2_def)

theorem C7_witness:
  "answering (responseWith [0, 1, 2]) romeThenVenice = Inr (responseWith [0, 1, 2])
   \<and> rawBeats (responseWith [0, 1, 2]) = Some [rawBeatAt 0 ''venice'', rawBeatAt 1 ''venice'', rawBeatAt 2 ''venice'']
   \<and> beatCount (analyzeTripAndGenerateStory1 toLowerCaseAscii (answering (responseWith [0, 1, 2])) romeThenVenice)
       = Some 3
   \<and> beatCount (analyzeTripAndGenerateStory2 toLowerCaseAscii (answering (responseWith [0, 1, 2])) romeThenVenice)
       = Some 3"
proof -
  have h1: "answering (responseWith [0, 1, 2]) romeThenVenice = Inr (responseWith [0, 1, 2])"
    by (simp add: answering_def)
  have h2: "rawBeats (responseWith [0, 1, 2]) = Some [rawBeatAt 0 ''venice'', rawBeatAt 1 ''venice'', rawBeatAt 2 ''venice'']"
    by (simp add: responseWith_def)
  from C7_beat_count
         [of "answering (responseWith [0, 1, 2])" romeThenVenice "responseWith [0, 1, 2]"
             "[rawBeatAt 0 ''venice'', rawBeatAt 1 ''venice'', rawBeatAt 2 ''venice'']", OF h1 h2]
       h1 h2
  show ?thesis by simp
qed

text \<open>
  Four media items, for which \<^verbatim>\<open>Math.max(4, Math.min(media.length, 10))\<close> is 4, and a
  response of one beat: the story has one beat.
\<close>

theorem C7_counterexample:
  "length (p_media romeThenVenice) = 4
   \<and> requestedBeats (p_media romeThenVenice) = 4
   \<and> beatCount (analyzeTripAndGenerateStory1 toLowerCaseAscii (answering (responseWith [0])) romeThenVenice)
       = Some 1
   \<and> beatCount (analyzeTripAndGenerateStory2 toLowerCaseAscii (answering (responseWith [0])) romeThenVenice)
       = Some 1"
  by code_simp

text \<open>
  Claim C8, amended. The beats of the story that assembly returns carry the indices of
  the collaborator's raw beats, in the collaborator's order, neither renumbered nor
  sorted; they are contiguous from 0 exactly when the collaborator's indices are.
\<close>

theorem C8_indices_as_returned:
  assumes "respond params = Inr rawJson" and "rawBeats rawJson = Some bs"
  shows "beatIndices (analyzeTripAndGenerateStory2 toLowerCase respond params) = Some (map b_index bs)
         \<and> beatIndices (analyzeTripAndGenerateStory1 toLowerCase respond params) = Some (map b_index bs)
         \<and> (resultContiguous (analyzeTripAndGenerateStory2 toLowerCase respond params)
              \<longleftrightarrow> map b_index bs = map int [0 ..< length bs])"
  using assms
  by (simp add: beatIndices_def resultContiguous_def contiguousFromZero_def
        analyzeTripAndGenerateStory1_def analyzeTripAndGenerateStory2_def
        storyOfResponse1_def storyOfResponse2_def toStoryBeat_def comp_def)

theorem C8_witness:
  "answering (responseWith [0, 1]) romeThenVenice = Inr (responseWith [0, 1])
   \<and> rawBeats (responseWith [0, 1]) = Some [rawBeatAt 0 ''venice'', rawBeatAt 1 ''venice'']
   \<and> beatIndices (analyzeTripAndGenerateStory2 toLowerCaseAscii (answering (responseWith [0, 1])) romeThenVenice)
       = Some [0, 1]
   \<and> resultContiguous (analyzeTripAndGenerateStory2 toLowerCaseAscii (answering (responseWith [0, 1])) romeThenVenice)"
proof -
  have h1: "answering (responseWith [0, 1]) romeThenVenice = Inr (responseWith [0, 1])"
    by (simp add: answering_def)
  have h2: "rawBeats (responseWith [0, 1]) = Some [rawBeatAt 0 ''venice'', rawBeatAt 1 ''venice'']"
    by (simp add: responseWith_def)
  have "map int [0 ..< 2] = [0, 1]" by code_simp
  with C8_indices_as_returned
         [of "answering (responseWith [0, 1])" romeThenVenice "responseWith [0, 1]"
             "[rawBeatAt 0 ''venice'', rawBeatAt 1 ''venice'']", OF h1 h2]
       h1 h2
  show ?thesis
    by (simp add: rawBeatAt_def)
qed

text \<open>
  A response whose beats are numbered from 1 gives a story whose beats are numbered
  from 1.
\<close>

theorem C8_counterexample:
  "beatIndices (analyzeTripAndGenerateStory2 toLowerCaseAscii (answering (responseWith [1, 2])) romeThenVenice)
     = Some [1, 2]
   \<and> \<not> resultContiguous
         (analyzeTripAndGenerateStory2 toLowerCaseAscii (answering (responseWith [1, 2])) romeThenVenice)"
  by code_simp

section \<open>The two definitions of assembly\<close>

lemma fragments_differ:
  "''[Fragment: '' @ u @ '' - '' @ src @ '' source]'' \<noteq> ''[Fragment: '' @ u @ '']''"
proof
  assume "''[Fragment: '' @ u @ '' - '' @ src @ '' source]'' = ''[Fragment: '' @ u @ '']''"
  then have "length (''[Fragment: '' @ u @ '' - '' @ src @ '' source]'')
             = length (''[Fragment: '' @ u @ '']'')"
    by (rule arg_cong)
  then show False by simp
qed

lemma mediaPart_agree:
  "mediaPart1 m = mediaPart2 m
   \<longleftrightarrow> (case base64 m of None \<Rightarrow> False | Some d \<Rightarrow> d \<noteq> [] \<and> prefix ''image'' (mimeType m))"
  using fragments_differ [of "url m" "sourceText (source m)"]
  by (simp add: mediaPart1_def mediaPart2_def split: option.splits)

text \<open>
  Claim C10, amended. For every input bundle and every outcome of the collaborator call
  other than a response without a \<^verbatim>\<open>beats\<close> field, the two definitions return the
  same result, whatever the media items are; and the parts that they send for a media
  item are the same exactly when the item has a non-empty \<^verbatim>\<open>base64\<close> payload and a
  MIME type that starts with \<^verbatim>\<open>image\<close>.
\<close>

theorem C10_agree_when_beats_present:
  assumes "\<forall>rawJson. respond params = Inr rawJson \<longrightarrow> rawBeats rawJson \<noteq> None"
  shows "analyzeTripAndGenerateStory1 toLowerCase respond params = analyzeTripAndGenerateStory2 toLowerCase respond params
         \<and> (mediaPart1 m = mediaPart2 m
              \<longleftrightarrow> (case base64 m of
                     None \<Rightarrow> False
                   | Some d \<Rightarrow> d \<noteq> [] \<and> prefix ''image'' (mimeType m)))"
proof -
  have "analyzeTripAndGenerateStory1 toLowerCase respond params = analyzeTripAndGenerateStory2 toLowerCase respond params"
    using assms
    by (auto simp: analyzeTripAndGenerateStory1_def analyzeTripAndGenerateStory2_def
          storyOfResponse1_def storyOfResponse2_def split: sum.splits option.splits)
  then show ?thesis by (simp only: mediaPart_agree simp_thms)
qed

theorem C10_witness:
  "rawBeats (responseWith [0, 1]) \<noteq> None
   \<and> analyzeTripAndGenerateStory1 toLowerCaseAscii (answering (responseWith [0, 1])) romeThenVenice
       = analyzeTripAndGenerateStory2 toLowerCaseAscii (answering (responseWith [0, 1])) romeThenVenice
   \<and> mediaPart1 generatedFrame = mediaPart2 generatedFrame"
proof -
  have h: "\<forall>rawJson. answering (responseWith [0, 1]) romeThenVenice = Inr rawJson
             \<longrightarrow> rawBeats rawJson \<noteq> None"
    by (simp add: answering_def responseWith_def)
  have m: "(case base64 generatedFrame of
              None \<Rightarrow> False
            | Some d \<Rightarrow> d \<noteq> [] \<and> prefix ''image'' (mimeType generatedFrame))"
    by (simp add: generatedFrame_def)
  from C10_agree_when_beats_present
         [of "answering (responseWith [0, 1])" romeThenVenice toLowerCaseAscii generatedFrame,
          OF h] m
  show ?thesis
    by (simp add: responseWith_def)
qed

text \<open>
  For a response without \<^verbatim>\<open>beats\<close> the first definition returns a story with no
  beats and the second throws.
\<close>

theorem C10_counterexample:
  "analyzeTripAndGenerateStory1 toLowerCaseAscii (answering noBeats) romeThenVenice
     = Inr \<lparr> title = ''Two Cities'', beats = [] \<rparr>
   \<and> analyzeTripAndGenerateStory2 toLowerCaseAscii (answering noBeats) romeThenVenice = Inl TypeError"
  by code_simp

section \<open>Failure of speech synthesis\<close>

lemma beatAudioOk_update:
  "beatAudioOk env voice (bs[i := (bs ! i)\<lparr>audioBuffer := a\<rparr>]) j = beatAudioOk env voice bs j"
proof -
  have "narration (bs[i := (bs ! i)\<lparr>audioBuffer := a\<rparr>] ! j) = narration (bs ! j)"
    by (cases "i < length bs"; cases "j = i") (simp_all add: not_less list_update_beyond)
  then show ?thesis by (simp add: beatAudioOk_def)
qed

lemma narration_update:
  "narration (bs[i := (bs ! i)\<lparr>audioBuffer := a\<rparr>] ! j) = narration (bs ! j)"
  by (cases "i < length bs"; cases "j = i") (simp_all add: not_less list_update_beyond)

lemma masterBeats_fails:
  assumes "i0 \<le> i" and "i < length bs"
    and "\<forall>j. i0 \<le> j \<and> j < i \<longrightarrow> beatAudioOk env voice bs j"
    and "\<not> beatAudioOk env voice bs i"
  shows "\<exists>e s'. masterBeats env voice i0 bs s calls =
            (Inl e, s', calls @ map (\<lambda>j. (narration (bs ! j), voice)) [i0 ..< Suc i])
          \<and> story s' = story s \<and> appState s' = appState s"
  using assms
proof (induction "i - i0" arbitrary: i0 bs s calls)
  case 0
  then have eq: "i0 = i" by simp
  from 0 show ?case
    unfolding eq
    by (subst masterBeats.simps)
       (auto simp: beatAudioOk_def Let_def split: sum.splits)
next
  case (Suc n)
  then have lt: "i0 < i" and i0: "i0 < length bs" by simp_all
  from Suc.prems lt have ok: "beatAudioOk env voice bs i0" by simp
  then obtain ab buf where ab: "generateBeatAudio env i0 (narration (bs ! i0)) voice = Inr ab"
    and buf: "decodeAudioData env i0 ab = Inr buf"
    by (auto simp: beatAudioOk_def split: sum.splits)
  let ?bs = "bs[i0 := (bs ! i0)\<lparr>audioBuffer := Some buf\<rparr>]"
  let ?s = "s\<lparr>loadingMsg := masteringMsg i0 (length bs)\<rparr>"
  let ?calls = "calls @ [(narration (bs ! i0), voice)]"
  have step: "masterBeats env voice i0 bs s calls = masterBeats env voice (Suc i0) ?bs ?s ?calls"
    using i0 ab buf by (subst masterBeats.simps) (simp add: Let_def)
  have "\<exists>e s'. masterBeats env voice (Suc i0) ?bs ?s ?calls =
            (Inl e, s', ?calls @ map (\<lambda>j. (narration (?bs ! j), voice)) [Suc i0 ..< Suc i])
          \<and> story s' = story ?s \<and> appState s' = appState ?s"
  proof (rule Suc.hyps(1))
    show "n = i - Suc i0" using Suc.hyps(2) by simp
    show "Suc i0 \<le> i" using lt by simp
    show "i < length ?bs" using Suc.prems by simp
    show "\<forall>j. Suc i0 \<le> j \<and> j < i \<longrightarrow> beatAudioOk env voice ?bs j"
      using Suc.prems by (simp add: beatAudioOk_update)
    show "\<not> beatAudioOk env voice ?bs i"
      using Suc.prems by (simp add: beatAudioOk_update)
  qed
  moreover have "[i0 ..< Suc i] = i0 # [Suc i0 ..< Suc i]"
    using lt by (simp add: upt_conv_Cons)
  ultimately show ?case
    unfolding step by (auto simp: narration_update)
qed

text \<open>
  Claim C2. When assembly has returned a story and beat \<open>i\<close> is the first beat whose
  speech synthesis or audio decoding fails, \<^verbatim>\<open>handleGenerate\<close> ends on the importing
  screen, the stored story is what it was before (no story of this run is stored), and
  speech was requested for the beats 0 to \<open>i\<close> and for no later beat.
\<close>

theorem C2_synthesis_failure_aborts:
  assumes "analyze env (paramsOf s) = Inr st"
    and "i < length (beats st)"
    and "\<forall>j < i. beatAudioOk env (voiceOf (category (selectedCutPack s))) (beats st) j"
    and "\<not> beatAudioOk env (voiceOf (category (selectedCutPack s))) (beats st) i"
  shows "appState (fst (handleGenerate env s)) = IMPORTING
         \<and> story (fst (handleGenerate env s)) = story s
         \<and> snd (handleGenerate env s) =
             map (\<lambda>j. (narration (beats st ! j), voiceOf (category (selectedCutPack s))))
               [0 ..< Suc i]"
proof -
  let ?voice = "voiceOf (category (selectedCutPack s))"
  let ?s2 = "s\<lparr>appState := ANALYZING, loadingMsg := ''Developing Final Premiere...''\<rparr>"
  from assms(3) have ok: "\<forall>j. 0 \<le> j \<and> j < i \<longrightarrow> beatAudioOk env ?voice (beats st) j"
    by simp
  from masterBeats_fails [OF _ assms(2) ok assms(4), of ?s2 "[]"]
  obtain e s' where run: "masterBeats env ?voice 0 (beats st) ?s2 [] =
        (Inl e, s', map (\<lambda>j. (narration (beats st ! j), ?voice)) [0 ..< Suc i])"
    and keep: "story s' = story ?s2" "appState s' = appState ?s2"
    by auto
  show ?thesis
    using assms(1) run keep by (simp add: handleGenerate_def Let_def)
qed


lemma secondFails_story:
  "analyze secondFails (paramsOf designing) =
     Inr \<lparr> title = ''Two Cities'',
           beats = map (\<lambda>i. \<lparr> index = i, narration = ''A narrated scene.'',
                                associatedMediaId = None, location = Some venice,
                                audioBuffer = None \<rparr>) [0, 1, 2, 3, 4] \<rparr>"
  by code_simp

theorem C2_witness:
  "appState (fst (handleGenerate secondFails designing)) = IMPORTING
   \<and> story (fst (handleGenerate secondFails designing)) = None
   \<and> snd (handleGenerate secondFails designing) =
       [(''A narrated scene.'', ''Kore''), (''A narrated scene.'', ''Kore'')]"
proof -
  let ?st = "\<lparr> title = ''Two Cities'',
           beats = map (\<lambda>i. \<lparr> index = i, narration = ''A narrated scene.'',
                                associatedMediaId = None, location = Some venice,
                                audioBuffer = None \<rparr>) [0, 1, 2, 3, 4] \<rparr>"
  let ?voice = "voiceOf (category (selectedCutPack designing))"
  have h2: "1 < length (beats ?st)" by simp
  have h3: "\<forall>j < 1. beatAudioOk secondFails ?voice (beats ?st) j"
    by (simp add: beatAudioOk_def secondFails_def)
  have h4: "\<not> beatAudioOk secondFails ?voice (beats ?st) 1"
    by (simp add: beatAudioOk_def secondFails_def)
  from C2_synthesis_failure_aborts [OF secondFails_story h2 h3 h4] show ?thesis
    by (simp add: designing_def neonNoir_def upt_conv_Cons)
qed

section \<open>The loading flag of a file import\<close>

text \<open>
  Claim C9, at its failing input. \<^verbatim>\<open>processFiles([])\<close> sets the flag and starts no
  reader, so that no \<^verbatim>\<open>onloadend\<close> will clear it: the flag stays set.
\<close>

theorem C9_empty_selection_keeps_loading:
  "startedReaders (snd (processFiles [] s)) = []
   \<and> isProcessing (importFinished clock [] s) = True"
  by (simp add: importFinished_def processFiles_def startedReaders_def)

text \<open>For a selection that is not empty, the last reader to finish clears the flag.\<close>

lemma finishReaders_clears:
  assumes "order \<noteq> []" and "processedCount u + length order = length (files u)"
    and "\<forall>idx \<in> set order. idx < length (files u)"
  shows "isProcessing (fst (finishReaders clock order (s, u))) = False"
  using assms
proof (induction order arbitrary: s u)
  case Nil
  then show ?case by simp
next
  case (Cons idx rest)
  then have idx: "idx < length (files u)" by simp
  show ?case
  proof (cases "rest = []")
    case True
    with Cons.prems idx show ?thesis by (simp add: onloadend_def Let_def)
  next
    case False
    obtain s' u' where step: "onloadend (fst (clock idx)) (snd (clock idx)) idx (s, u) = (s', u')"
      by (cases "onloadend (fst (clock idx)) (snd (clock idx)) idx (s, u)")
    from False have "0 < length rest" by simp
    with Cons.prems idx step
    have "processedCount u' + length rest = length (files u')"
      and "\<forall>idx \<in> set rest. idx < length (files u')"
      by (auto simp: onloadend_def Let_def split: if_splits)
    from Cons.IH [OF False this] step show ?thesis by simp
  qed
qed

lemma nonempty_selection_clears_loading:
  "fs \<noteq> [] \<Longrightarrow> isProcessing (importFinished clock fs s) = False"
  by (simp add: importFinished_def processFiles_def startedReaders_def finishReaders_clears)

end
